theory Spec2Isabelle
  imports Main "HOL-Library.Sublist"
begin

section \<open>Data model\<close>

text \<open>
  The root component \<^verbatim>\<open>App\<close> owns three pieces of state, created by
  \<^verbatim>\<open>useState([])\<close>, \<^verbatim>\<open>useState(null)\<close> and \<^verbatim>\<open>useState(null)\<close>.
  A contract placeholder is the object \<^verbatim>\<open>{ id: Date.now(), name: file.name }\<close>; the
  review result is the object literal of \<^verbatim>\<open>reviewContract\<close>. JavaScript's
  \<^verbatim>\<open>null\<close> is \<open>None\<close>. \<^verbatim>\<open>Date.now()\<close> returns a whole number of
  milliseconds, an \<open>int\<close> here.
\<close>

record contract =
  contract_id :: int
  contract_name :: string

record review =
  missingClauses :: "string list"
  risks :: "string list"
  recommendations :: "string list"

record app_state =
  contracts :: "contract list"
  selectedContract :: "contract option"
  reviewResult :: "review option"

text \<open>
  A \<^verbatim>\<open>File\<close> of the browser: the code reads its \<^verbatim>\<open>name\<close> only; the other
  fields are what a file carries besides (its type, its size, its bytes). The change event
  of the file input carries \<^verbatim>\<open>e.target\<close>, with the selected \<^verbatim>\<open>files\<close>
  and the input's \<^verbatim>\<open>value\<close>.
\<close>

record js_file =
  file_name :: string
  file_type :: string
  file_size :: nat
  file_content :: "nat list"

record input_element =
  files :: "js_file list"
  input_value :: "string option"

record event =
  target :: input_element

text \<open>
  Reading an index of a JavaScript array (or \<^verbatim>\<open>FileList\<close>) out of range gives
  \<^verbatim>\<open>undefined\<close>, no error: \<open>None\<close> here.
\<close>

definition js_index :: "'a list \<Rightarrow> nat \<Rightarrow> 'a option" where
  "js_index xs i = (if i < length xs then Some (xs ! i) else None)"

section \<open>The root component's state and handlers\<close>

definition App_init :: app_state where
  "App_init = \<lparr>contracts = [], selectedContract = None, reviewResult = None\<rparr>"

text \<open>
  \<^verbatim>\<open>setContracts((prev) => [...prev, { id: Date.now(), name: file.name }])\<close>.
  The clock is the environment's: its reading \<open>now\<close> is a parameter.
\<close>

definition handleUpload :: "int \<Rightarrow> js_file \<Rightarrow> app_state \<Rightarrow> app_state" where
  "handleUpload now file s =
     s\<lparr>contracts := contracts s @ [\<lparr>contract_id = now, contract_name = file_name file\<rparr>]\<rparr>"

definition reviewContract :: "contract \<Rightarrow> app_state \<Rightarrow> app_state" where
  "reviewContract contract s =
     s\<lparr>selectedContract := Some contract,
       reviewResult := Some
         \<lparr>missingClauses = [''Data Protection Clause'', ''Breach Notification Clause''],
          risks = [''Non-compliance with GDPR Article 33''],
          recommendations =
            [''Add Data Protection Clause referencing GDPR requirements.'',
             ''Include Breach Notification Clause with 72-hour notification period.'']\<rparr>\<rparr>"

section \<open>The upload control\<close>

text \<open>
  \<^verbatim>\<open>handleChange\<close> of \<^verbatim>\<open>ContractUpload\<close>: it reads
  \<^verbatim>\<open>e.target.files[0]\<close>; when that is a file it calls the \<^verbatim>\<open>onUpload\<close>
  prop with it and resets the input (\<^verbatim>\<open>e.target.value = null\<close>); otherwise it
  does nothing. The callback is a parameter, acting on the state of whoever passed it; the result
  is the event as the handler leaves it and that state.
\<close>

definition handleChange :: "(js_file \<Rightarrow> 'st \<Rightarrow> 'st) \<Rightarrow> event \<Rightarrow> 'st \<Rightarrow> event \<times> 'st" where
  "handleChange onUpload e st =
     (case js_index (files (target e)) 0 of
        None \<Rightarrow> (e, st)
      | Some file \<Rightarrow> (e\<lparr>target := (target e)\<lparr>input_value := None\<rparr>\<rparr>, onUpload file st))"

section \<open>Rendered output\<close>

text \<open>
  What a component returns: a tree of elements. \<open>Elem\<close> is a host element with its tag,
  \<open>Button\<close> a \<^verbatim>\<open><button>\<close> with its \<^verbatim>\<open>onClick\<close> handler, \<open>Fragment\<close> a
  \<^verbatim>\<open>React.Fragment\<close> with its key. The \<^verbatim>\<open>style\<close> props and the hover handlers,
  which change colours only, are left out. A component that returns \<^verbatim>\<open>null\<close>
  returns \<open>None\<close>.
\<close>

datatype 'h node =
    Text string
  | Elem string "'h node list"
  | Button 'h "'h node list"
  | Fragment int "'h node list"

fun buttons :: "'h node \<Rightarrow> 'h list" where
  "buttons (Text t) = []"
| "buttons (Elem tag children) = concat (map buttons children)"
| "buttons (Button h children) = h # concat (map buttons children)"
| "buttons (Fragment k children) = concat (map buttons children)"

fun texts :: "'h node \<Rightarrow> string list" where
  "texts (Text t) = [t]"
| "texts (Elem tag children) = concat (map texts children)"
| "texts (Button h children) = concat (map texts children)"
| "texts (Fragment k children) = concat (map texts children)"

text \<open>The children of the grid \<^verbatim>\<open><div>\<close> of the contract list: its rows.\<close>

fun rows :: "'h node \<Rightarrow> 'h node list" where
  "rows (Elem tag [heading, Elem tag' children]) = children"
| "rows n = []"

definition ContractList :: "contract list \<Rightarrow> (contract \<Rightarrow> 'h) \<Rightarrow> 'h node option" where
  "ContractList contracts_prop onReview =
     (if length contracts_prop = 0 then None
      else Some
        (Elem ''section''
          [Elem ''h2'' [Text ''Contracts''],
           Elem ''div''
             (map (\<lambda>contract.
                 Fragment (contract_id contract)
                   [Elem ''div'' [Text (contract_name contract)],
                    Button (onReview contract) [Text ''Review'']])
               contracts_prop)]))"

definition ReviewPanel :: "contract \<Rightarrow> review \<Rightarrow> 'h node" where
  "ReviewPanel contract review =
     Elem ''section''
       [Elem ''h2''
          [Text ''Review Results for:'', Text '' '',
           Elem ''span'' [Text (contract_name contract)]],
        Elem ''div''
          [Elem ''h3'' [Text ''Missing Clauses''],
           Elem ''ul'' (map (\<lambda>clause. Elem ''li'' [Text clause]) (missingClauses review))],
        Elem ''div''
          [Elem ''h3'' [Text ''Risks''],
           Elem ''ul'' (map (\<lambda>risk. Elem ''li'' [Text risk]) (risks review))],
        Elem ''div''
          [Elem ''h3'' [Text ''Recommendations''],
           Elem ''ul'' (map (\<lambda>rec. Elem ''li'' [Text rec]) (recommendations review))]]"

text \<open>
  The two children of \<^verbatim>\<open><main>\<close> that depend on the state, as \<^verbatim>\<open>App\<close>
  returns them: the contract list, wired to \<^verbatim>\<open>reviewContract\<close>, and
  \<^verbatim>\<open>{selectedContract && reviewResult && (<ReviewPanel ... />)}\<close>.
\<close>

definition App_ContractList :: "app_state \<Rightarrow> (app_state \<Rightarrow> app_state) node option" where
  "App_ContractList s = ContractList (contracts s) reviewContract"

definition App_ReviewPanel :: "app_state \<Rightarrow> (app_state \<Rightarrow> app_state) node option" where
  "App_ReviewPanel s =
     (case selectedContract s of
        None \<Rightarrow> None
      | Some contract \<Rightarrow>
          (case reviewResult s of
             None \<Rightarrow> None
           | Some review \<Rightarrow> Some (ReviewPanel contract review)))"

section \<open>A session: the user's actions on the page\<close>

text \<open>
  The user can do two things to the state: choose files in the file input, which fires
  \<^verbatim>\<open>handleChange\<close> (with the clock's reading at that moment), and click the
  \<open>i\<close>-th Review button of the page as rendered from the current state. A click on a button
  the page does not show does nothing.
\<close>

datatype action = FileChange event int | ClickReview nat

definition review_button :: "nat \<Rightarrow> app_state \<Rightarrow> (app_state \<Rightarrow> app_state) option" where
  "review_button i s =
     (case App_ContractList s of
        None \<Rightarrow> None
      | Some view \<Rightarrow> js_index (buttons view) i)"

fun step :: "action \<Rightarrow> app_state \<Rightarrow> app_state" where
  "step (FileChange e now) s = snd (handleChange (handleUpload now) e s)"
| "step (ClickReview i) s = (case review_button i s of None \<Rightarrow> s | Some h \<Rightarrow> h s)"

fun run :: "action list \<Rightarrow> app_state \<Rightarrow> app_state" where
  "run [] s = s"
| "run (a # as) s = run as (step a s)"

text \<open>The placeholder a file-selection event creates, if it carries a file.\<close>

definition created :: "event \<Rightarrow> int \<Rightarrow> contract option" where
  "created e now =
     (case js_index (files (target e)) 0 of
        None \<Rightarrow> None
      | Some file \<Rightarrow> Some \<lparr>contract_id = now, contract_name = file_name file\<rparr>)"

text \<open>How many times the actions of a session, from a state, invoke \<^verbatim>\<open>reviewContract\<close>.\<close>

fun reviews :: "action list \<Rightarrow> app_state \<Rightarrow> nat" where
  "reviews [] s = 0"
| "reviews (FileChange e now # as) s = reviews as (step (FileChange e now) s)"
| "reviews (ClickReview i # as) s =
     (case review_button i s of None \<Rightarrow> 0 | Some h \<Rightarrow> 1) + reviews as (step (ClickReview i) s)"

text \<open>The placeholders the file-selection events of a session create, in order.\<close>

fun uploads :: "action list \<Rightarrow> contract list" where
  "uploads [] = []"
| "uploads (FileChange e now # as) =
     (case created e now of None \<Rightarrow> [] | Some c \<Rightarrow> [c]) @ uploads as"
| "uploads (ClickReview i # as) = uploads as"

section \<open>Basic facts\<close>

lemma contracts_handleUpload:
  "contracts (handleUpload now f s) =
     contracts s @ [\<lparr>contract_id = now, contract_name = file_name f\<rparr>]"
  by (simp add: handleUpload_def)

lemma contracts_reviewContract: "contracts (reviewContract c s) = contracts s"
  by (simp add: reviewContract_def)

lemma buttons_rows:
  "concat (map (\<lambda>c. buttons (Fragment (k c) [Elem tag [Text (t c)], Button (h c) [Text l]])) cs)
     = map h cs"
  by (induction cs) simp_all

lemma buttons_ContractList:
  "ContractList cs onReview = Some view \<Longrightarrow> buttons view = map onReview cs"
  by (auto simp: ContractList_def comp_def buttons_rows split: if_splits)

lemma review_button_eq:
  "review_button i s =
     (if i < length (contracts s) then Some (reviewContract (contracts s ! i)) else None)"
proof (cases "App_ContractList s")
  case None
  then show ?thesis
    by (auto simp: review_button_def App_ContractList_def ContractList_def split: if_splits)
next
  case (Some view)
  then have "buttons view = map reviewContract (contracts s)"
    by (simp add: App_ContractList_def buttons_ContractList)
  with Some show ?thesis
    by (simp add: review_button_def js_index_def)
qed

lemma step_FileChange:
  "step (FileChange e now) s =
     (case created e now of None \<Rightarrow> s | Some c \<Rightarrow> s\<lparr>contracts := contracts s @ [c]\<rparr>)"
  by (simp add: handleChange_def created_def handleUpload_def split: option.splits)

lemma step_ClickReview:
  "step (ClickReview i) s =
     (if i < length (contracts s) then reviewContract (contracts s ! i) s else s)"
  by (simp add: review_button_eq)

lemma contracts_step:
  "contracts (step a s) = contracts s @ uploads [a]"
  by (cases a) (simp_all add: step_FileChange step_ClickReview contracts_reviewContract
      split: option.splits del: step.simps)

lemma contracts_run: "contracts (run as s) = contracts s @ uploads as"
proof (induction as arbitrary: s)
  case Nil
  show ?case by simp
next
  case (Cons a as)
  have "uploads (a # as) = uploads [a] @ uploads as"
    by (cases a) simp_all
  with Cons show ?case
    by (simp add: contracts_step del: step.simps)
qed

lemma run_append: "run (as @ bs) s = run bs (run as s)"
  by (induction as arbitrary: s) simp_all

lemma uploads_split:
  "c \<in> set (uploads as) \<Longrightarrow>
     \<exists>as1 e now as2. as = as1 @ FileChange e now # as2 \<and> created e now = Some c"
proof (induction as rule: uploads.induct)
  case 1
  then show ?case by simp
next
  case (2 e now as)
  show ?case
  proof (cases "created e now = Some c")
    case True
    then have "FileChange e now # as = [] @ FileChange e now # as \<and> created e now = Some c"
      by simp
    then show ?thesis by blast
  next
    case False
    with 2 obtain as1 e' now' as2 where
      "as = as1 @ FileChange e' now' # as2" "created e' now' = Some c"
      by (auto split: option.splits)
    then have "FileChange e now # as = (FileChange e now # as1) @ FileChange e' now' # as2"
      by simp
    with \<open>created e' now' = Some c\<close> show ?thesis by blast
  qed
next
  case (3 i as)
  then obtain as1 e' now' as2 where
    "as = as1 @ FileChange e' now' # as2" "created e' now' = Some c"
    by auto
  then have "ClickReview i # as = (ClickReview i # as1) @ FileChange e' now' # as2"
    by simp
  with \<open>created e' now' = Some c\<close> show ?case by blast
qed

lemma reviewResult_reviewContract:
  "reviewResult (reviewContract c s) = Some
     \<lparr>missingClauses = [''Data Protection Clause'', ''Breach Notification Clause''],
      risks = [''Non-compliance with GDPR Article 33''],
      recommendations =
        [''Add Data Protection Clause referencing GDPR requirements.'',
         ''Include Breach Notification Clause with 72-hour notification period.'']\<rparr>"
  by (simp add: reviewContract_def)

lemma selectedContract_reviewContract: "selectedContract (reviewContract c s) = Some c"
  by (simp add: reviewContract_def)

lemma selected_run:
  "selectedContract (run as s) = Some c \<Longrightarrow>
     selectedContract s = Some c
     \<or> (c \<in> set (contracts s) \<and> (\<exists>i. ClickReview i \<in> set as))
     \<or> (\<exists>as1 e now as2 i as3.
          as = as1 @ FileChange e now # as2 @ ClickReview i # as3 \<and> created e now = Some c)"
proof (induction as arbitrary: s)
  case Nil
  then show ?case by simp
next
  case (Cons a as)
  let ?s = "step a s"
  from Cons.prems have "selectedContract (run as ?s) = Some c" by simp
  from Cons.IH [OF this] consider
      (sel) "selectedContract ?s = Some c"
    | (mem) i where "c \<in> set (contracts ?s)" "ClickReview i \<in> set as"
    | (split) as1 e now as2 i as3 where
        "as = as1 @ FileChange e now # as2 @ ClickReview i # as3" "created e now = Some c"
    by blast
  then show ?case
  proof cases
    case sel
    show ?thesis
    proof (cases a)
      case (FileChange e now)
      with sel have "selectedContract s = Some c"
        by (simp add: step_FileChange del: step.simps split: option.splits)
      then show ?thesis by simp
    next
      case (ClickReview i)
      show ?thesis
      proof (cases "i < length (contracts s)")
        case True
        with sel ClickReview have "c = contracts s ! i"
          by (simp add: step_ClickReview selectedContract_reviewContract del: step.simps)
        with True have "c \<in> set (contracts s)" by simp
        with ClickReview show ?thesis by auto
      next
        case False
        with sel ClickReview have "selectedContract s = Some c"
          by (simp add: step_ClickReview del: step.simps)
        then show ?thesis by simp
      qed
    qed
  next
    case mem
    show ?thesis
    proof (cases a)
      case (FileChange e now)
      show ?thesis
      proof (cases "c \<in> set (contracts s)")
        case True
        with mem show ?thesis by auto
      next
        case False
        with mem FileChange have cr: "created e now = Some c"
          by (auto simp: contracts_step simp del: step.simps split: option.splits)
        from mem obtain as2 as3 where "as = as2 @ ClickReview i # as3"
          by (auto dest: split_list)
        with FileChange have "a # as = [] @ FileChange e now # as2 @ ClickReview i # as3"
          by simp
        with cr show ?thesis by blast
      qed
    next
      case (ClickReview j)
      with mem have "c \<in> set (contracts s)"
        by (simp add: contracts_step del: step.simps)
      with mem show ?thesis by auto
    qed
  next
    case split
    then have "a # as = (a # as1) @ FileChange e now # as2 @ ClickReview i # as3"
      by simp
    with split show ?thesis by blast
  qed
qed

lemma selected_member:
  "selectedContract s = None \<or> the (selectedContract s) \<in> set (contracts s) \<Longrightarrow>
   selectedContract (run as s) = None \<or> the (selectedContract (run as s)) \<in> set (contracts (run as s))"
proof (induction as arbitrary: s)
  case Nil
  then show ?case by simp
next
  case (Cons a as)
  have "selectedContract (step a s) = None \<or>
        the (selectedContract (step a s)) \<in> set (contracts (step a s))"
  proof (cases a)
    case (FileChange e now)
    with Cons.prems show ?thesis
      by (auto simp: step_FileChange simp del: step.simps split: option.splits)
  next
    case (ClickReview i)
    with Cons.prems show ?thesis
      by (auto simp: step_ClickReview selectedContract_reviewContract contracts_reviewContract
          simp del: step.simps)
  qed
  from Cons.IH [OF this] show ?case by simp
qed

lemma fold_reviewContract:
  "reviewResult (fold reviewContract cs (reviewContract c s)) = reviewResult (reviewContract c s)"
proof (induction cs arbitrary: c s)
  case Nil
  show ?case by simp
next
  case (Cons d ds)
  have "reviewResult (fold reviewContract ds (reviewContract d (reviewContract c s)))
        = reviewResult (reviewContract d (reviewContract c s))"
    by (rule Cons.IH)
  then show ?case by (simp add: reviewResult_reviewContract)
qed

lemma contracts_fold_reviewContract:
  "contracts (fold reviewContract cs s) = contracts s"
  by (induction cs arbitrary: s) (simp_all add: contracts_reviewContract)

lemma rows_ContractList:
  "cs \<noteq> [] \<Longrightarrow>
     \<exists>view. ContractList cs onReview = Some view \<and>
       rows view = map (\<lambda>c. Fragment (contract_id c)
         [Elem ''div'' [Text (contract_name c)], Button (onReview c) [Text ''Review'']]) cs"
  by (simp add: ContractList_def)

lemma App_ReviewPanel_shown:
  "(App_ReviewPanel s \<noteq> None) = (selectedContract s \<noteq> None \<and> reviewResult s \<noteq> None)"
  by (simp add: App_ReviewPanel_def split: option.splits)

lemma selected_iff_reviewed:
  "(selectedContract s = None) = (reviewResult s = None) \<Longrightarrow>
     ((selectedContract (run as s) = None) = (reviewResult (run as s) = None))
     \<and> ((selectedContract (run as s) \<noteq> None) = (selectedContract s \<noteq> None \<or> 0 < reviews as s))"
proof (induction as arbitrary: s)
  case Nil
  then show ?case by simp
next
  case (Cons a as)
  have r: "run (a # as) s = run as (step a s)" by simp
  show ?case
  proof (cases a)
    case (FileChange e now)
    have sel: "selectedContract (step a s) = selectedContract s"
      and res: "reviewResult (step a s) = reviewResult s"
      by (simp_all add: FileChange step_FileChange del: step.simps split: option.splits)
    have rv: "reviews (a # as) s = reviews as (step a s)"
      by (simp add: FileChange del: step.simps)
    from Cons.prems sel res
    have "(selectedContract (step a s) = None) = (reviewResult (step a s) = None)"
      by simp
    from Cons.IH [OF this] show ?thesis
      unfolding r rv sel by blast
  next
    case (ClickReview i)
    show ?thesis
    proof (cases "i < length (contracts s)")
      case True
      then have st: "step a s = reviewContract (contracts s ! i) s"
        by (simp add: ClickReview step_ClickReview del: step.simps)
      have rv: "reviews (a # as) s = 1 + reviews as (step a s)"
        using True by (simp add: ClickReview review_button_eq del: step.simps)
      have sel: "selectedContract (step a s) \<noteq> None"
        and inv: "(selectedContract (step a s) = None) = (reviewResult (step a s) = None)"
        by (simp_all add: st selectedContract_reviewContract reviewResult_reviewContract)
      from Cons.IH [OF inv] sel show ?thesis
        unfolding r rv by auto
    next
      case False
      then have st: "step a s = s"
        by (simp add: ClickReview step_ClickReview del: step.simps)
      have rv: "reviews (a # as) s = reviews as s"
        using False by (simp add: ClickReview review_button_eq)
      from Cons.IH [OF Cons.prems] show ?thesis
        unfolding r rv st by blast
    qed
  qed
qed

section \<open>The claims\<close>

text \<open>
  Claim C1. Whatever contract \<^verbatim>\<open>reviewContract\<close> is invoked on and whatever the state,
  the review result becomes the same fixed record: the two missing clauses, the one risk and the
  two recommendations of the source. In particular this is so for the Review button of every
  contract of the list.
\<close>

theorem reviewContract_fixed_result:
  "reviewResult (reviewContract c s) = Some
     \<lparr>missingClauses = [''Data Protection Clause'', ''Breach Notification Clause''],
      risks = [''Non-compliance with GDPR Article 33''],
      recommendations =
        [''Add Data Protection Clause referencing GDPR requirements.'',
         ''Include Breach Notification Clause with 72-hour notification period.'']\<rparr>
   \<and> reviewResult (reviewContract c s) = reviewResult (reviewContract c' s')
   \<and> (\<forall>i < length (contracts s).
         reviewResult (step (ClickReview i) s) = reviewResult (reviewContract c' s'))"
  by (simp add: reviewResult_reviewContract step_ClickReview del: step.simps)

theorem reviewContract_fixed_result_witness:
  "reviewResult (step (ClickReview 0)
      \<lparr>contracts = [\<lparr>contract_id = 1, contract_name = ''a.pdf''\<rparr>],
       selectedContract = None, reviewResult = None\<rparr>)
   = Some
     \<lparr>missingClauses = [''Data Protection Clause'', ''Breach Notification Clause''],
      risks = [''Non-compliance with GDPR Article 33''],
      recommendations =
        [''Add Data Protection Clause referencing GDPR requirements.'',
         ''Include Breach Notification Clause with 72-hour notification period.'']\<rparr>"
proof -
  let ?c = "\<lparr>contract_id = 1, contract_name = ''a.pdf''\<rparr>"
  let ?s = "\<lparr>contracts = [?c], selectedContract = None, reviewResult = None\<rparr>"
  have "0 < length (contracts ?s)" by simp
  with reviewContract_fixed_result [of ?c ?s ?c ?s] show ?thesis by (simp del: step.simps)
qed

text \<open>
  Claim C2. \<^verbatim>\<open>handleUpload\<close> appends exactly one placeholder, whose name is the
  file's name, to the end of the list: the length grows by one and the entries that were there
  are unchanged.
\<close>

theorem handleUpload_appends_one:
  "contracts (handleUpload now f s) =
     contracts s @ [\<lparr>contract_id = now, contract_name = file_name f\<rparr>]
   \<and> length (contracts (handleUpload now f s)) = length (contracts s) + 1
   \<and> take (length (contracts s)) (contracts (handleUpload now f s)) = contracts s
   \<and> contract_name (last (contracts (handleUpload now f s))) = file_name f"
  by (simp add: contracts_handleUpload)

theorem handleUpload_appends_one_witness:
  "contracts (handleUpload 1700000000000
      \<lparr>file_name = ''x.pdf'', file_type = ''application/pdf'', file_size = 3,
       file_content = [37, 80, 68]\<rparr> App_init)
   = [\<lparr>contract_id = 1700000000000, contract_name = ''x.pdf''\<rparr>]"
  using handleUpload_appends_one [of 1700000000000
      "\<lparr>file_name = ''x.pdf'', file_type = ''application/pdf'', file_size = 3,
        file_content = [37, 80, 68]\<rparr>" App_init]
  by (simp add: App_init_def)

text \<open>
  Claim C3. The contracts list is append-only: after an upload, a review, or any action of the
  user the prior list is a prefix of the new one; along a session from page load, the list
  reached first is a prefix of the list reached later, with every entry still at its index.
\<close>

theorem contracts_append_only:
  "prefix (contracts s) (contracts (handleUpload now f s))
   \<and> prefix (contracts s) (contracts (reviewContract c s))
   \<and> prefix (contracts s) (contracts (step a s))
   \<and> prefix (contracts (run as App_init)) (contracts (run (as @ bs) App_init))
   \<and> (\<forall>i < length (contracts (run as App_init)).
         contracts (run (as @ bs) App_init) ! i = contracts (run as App_init) ! i)"
  by (simp add: contracts_handleUpload contracts_reviewContract contracts_step run_append
      contracts_run nth_append del: step.simps)

theorem contracts_append_only_witness:
  "prefix [\<lparr>contract_id = 5, contract_name = ''x.pdf''\<rparr>]
     (contracts (run
        ([FileChange \<lparr>target = \<lparr>files = [\<lparr>file_name = ''x.pdf'', file_type = ''application/pdf'',
             file_size = 3, file_content = [37, 80, 68]\<rparr>], input_value = Some ''x.pdf''\<rparr>\<rparr> 5]
         @ [ClickReview 0,
            FileChange \<lparr>target = \<lparr>files = [\<lparr>file_name = ''y.txt'', file_type = ''text/plain'',
             file_size = 1, file_content = [65]\<rparr>], input_value = Some ''y.txt''\<rparr>\<rparr> 6])
        App_init))"
proof -
  let ?e = "\<lparr>target = \<lparr>files = [\<lparr>file_name = ''x.pdf'', file_type = ''application/pdf'',
             file_size = 3, file_content = [37, 80, 68]\<rparr>], input_value = Some ''x.pdf''\<rparr>\<rparr>"
  have "contracts (run [FileChange ?e 5] App_init)
        = [\<lparr>contract_id = 5, contract_name = ''x.pdf''\<rparr>]"
    by (simp add: handleChange_def js_index_def handleUpload_def App_init_def)
  with contracts_append_only [of _ _ _ _ _ "[FileChange ?e 5]"] show ?thesis by metis
qed

text \<open>
  Claim C4. In every state reached from page load, a selected contract is a member of the
  contracts list, and it was created by a file-selection event of the session that precedes the
  Review click of the session; \<^verbatim>\<open>reviewContract\<close> replaces the selection with the
  contract it is invoked on, which for the \<open>i\<close>-th Review button is the \<open>i\<close>-th contract.
\<close>

theorem selection_is_uploaded_member:
  "(selectedContract (run as App_init) = Some c \<longrightarrow>
      c \<in> set (contracts (run as App_init))
      \<and> (\<exists>as1 e now as2 i as3.
           as = as1 @ FileChange e now # as2 @ ClickReview i # as3 \<and> created e now = Some c))
   \<and> selectedContract (reviewContract c' s) = Some c'
   \<and> (i < length (contracts s) \<longrightarrow>
        selectedContract (step (ClickReview i) s) = Some (contracts s ! i))"
proof -
  have "selectedContract (run as App_init) = None \<or>
        the (selectedContract (run as App_init)) \<in> set (contracts (run as App_init))"
    by (rule selected_member) (simp add: App_init_def)
  moreover have "selectedContract (run as App_init) = Some c \<Longrightarrow>
      (\<exists>as1 e now as2 i as3.
           as = as1 @ FileChange e now # as2 @ ClickReview i # as3 \<and> created e now = Some c)"
    using selected_run [of as App_init c] by (simp add: App_init_def)
  ultimately show ?thesis
    by (auto simp: selectedContract_reviewContract step_ClickReview simp del: step.simps)
qed

theorem selection_is_uploaded_member_witness:
  "selectedContract (run
      [FileChange \<lparr>target = \<lparr>files = [\<lparr>file_name = ''x.pdf'', file_type = ''application/pdf'',
           file_size = 3, file_content = [37, 80, 68]\<rparr>], input_value = Some ''x.pdf''\<rparr>\<rparr> 5,
       ClickReview 0] App_init)
     = Some \<lparr>contract_id = 5, contract_name = ''x.pdf''\<rparr>
   \<and> \<lparr>contract_id = 5, contract_name = ''x.pdf''\<rparr> \<in> set (contracts (run
      [FileChange \<lparr>target = \<lparr>files = [\<lparr>file_name = ''x.pdf'', file_type = ''application/pdf'',
           file_size = 3, file_content = [37, 80, 68]\<rparr>], input_value = Some ''x.pdf''\<rparr>\<rparr> 5,
       ClickReview 0] App_init))"
proof -
  let ?e = "\<lparr>target = \<lparr>files = [\<lparr>file_name = ''x.pdf'', file_type = ''application/pdf'',
             file_size = 3, file_content = [37, 80, 68]\<rparr>], input_value = Some ''x.pdf''\<rparr>\<rparr>"
  let ?c = "\<lparr>contract_id = 5, contract_name = ''x.pdf''\<rparr>"
  have sel: "selectedContract (run [FileChange ?e 5, ClickReview 0] App_init) = Some ?c"
    by (simp add: handleChange_def js_index_def handleUpload_def App_init_def review_button_def
        App_ContractList_def ContractList_def reviewContract_def)
  with selection_is_uploaded_member [of "[FileChange ?e 5, ClickReview 0]" ?c] show ?thesis by blast
qed

text \<open>
  Claim C5. When the file-selection event carries no file, \<^verbatim>\<open>handleChange\<close> does
  nothing: whatever the \<^verbatim>\<open>onUpload\<close> callback is, the state it acts on and the event are
  returned as they were (the callback is not invoked), and in the application the state,
  with its contracts list, is unchanged. The handler has no branch that raises: its result is
  a plain value.
\<close>

theorem handleChange_no_file_noop:
  "files (target e) = [] \<Longrightarrow>
     handleChange onUpload e st = (e, st) \<and> step (FileChange e now) s = s"
  by (simp add: handleChange_def js_index_def)

theorem handleChange_no_file_noop_witness:
  "handleChange (handleUpload 5) \<lparr>target = \<lparr>files = [], input_value = None\<rparr>\<rparr> App_init
     = (\<lparr>target = \<lparr>files = [], input_value = None\<rparr>\<rparr>, App_init)
   \<and> step (FileChange \<lparr>target = \<lparr>files = [], input_value = None\<rparr>\<rparr> 5) App_init = App_init"
proof -
  have "files (target \<lparr>target = \<lparr>files = [], input_value = None\<rparr>\<rparr>) = []" by simp
  then show ?thesis by (rule handleChange_no_file_noop)
qed

text \<open>
  Claim C6. \<^verbatim>\<open>reviewContract\<close> leaves the contracts list as it was and changes the
  selection and the review result only: the new state is the old one with the selection set to
  the contract and the review result set to the fixed record of the source. The review result
  is overwritten, not accumulated: after any number of reviews in a row, on whatever contracts
  and from whatever state, it is that same fixed record, which is what one review gives, and
  the contracts list is still as it was.
\<close>

theorem reviewContract_frame:
  "contracts (reviewContract c s) = contracts s
   \<and> reviewContract c s =
       s\<lparr>selectedContract := Some c,
         reviewResult := Some
        \<lparr>missingClauses = [''Data Protection Clause'', ''Breach Notification Clause''],
         risks = [''Non-compliance with GDPR Article 33''],
         recommendations =
           [''Add Data Protection Clause referencing GDPR requirements.'',
            ''Include Breach Notification Clause with 72-hour notification period.'']\<rparr>\<rparr>
   \<and> reviewResult (reviewContract c s) = Some
        \<lparr>missingClauses = [''Data Protection Clause'', ''Breach Notification Clause''],
         risks = [''Non-compliance with GDPR Article 33''],
         recommendations =
           [''Add Data Protection Clause referencing GDPR requirements.'',
            ''Include Breach Notification Clause with 72-hour notification period.'']\<rparr>
   \<and> reviewResult (fold reviewContract (c # cs) s) = Some
        \<lparr>missingClauses = [''Data Protection Clause'', ''Breach Notification Clause''],
         risks = [''Non-compliance with GDPR Article 33''],
         recommendations =
           [''Add Data Protection Clause referencing GDPR requirements.'',
            ''Include Breach Notification Clause with 72-hour notification period.'']\<rparr>
   \<and> reviewResult (fold reviewContract (c # cs) s) = reviewResult (reviewContract c' s')
   \<and> contracts (fold reviewContract (c # cs) s) = contracts s"
proof -
  have a: "contracts (reviewContract c s) = contracts s"
    by (rule contracts_reviewContract)
  have b: "reviewContract c s =
       s\<lparr>selectedContract := Some c,
         reviewResult := Some
        \<lparr>missingClauses = [''Data Protection Clause'', ''Breach Notification Clause''],
         risks = [''Non-compliance with GDPR Article 33''],
         recommendations =
           [''Add Data Protection Clause referencing GDPR requirements.'',
            ''Include Breach Notification Clause with 72-hour notification period.'']\<rparr>\<rparr>"
    by (simp add: reviewContract_def)
  have d: "reviewResult (fold reviewContract (c # cs) s) = reviewResult (reviewContract c s)"
    by (simp add: fold_reviewContract)
  have e: "contracts (fold reviewContract (c # cs) s) = contracts s"
    by (rule contracts_fold_reviewContract)
  show ?thesis
    unfolding d reviewResult_reviewContract
    by (intro conjI refl a b e)
qed

theorem reviewContract_frame_witness:
  "reviewResult (fold reviewContract
      [\<lparr>contract_id = 1, contract_name = ''a.pdf''\<rparr>,
       \<lparr>contract_id = 2, contract_name = ''b.pdf''\<rparr>,
       \<lparr>contract_id = 1, contract_name = ''a.pdf''\<rparr>] App_init)
   = Some
        \<lparr>missingClauses = [''Data Protection Clause'', ''Breach Notification Clause''],
         risks = [''Non-compliance with GDPR Article 33''],
         recommendations =
           [''Add Data Protection Clause referencing GDPR requirements.'',
            ''Include Breach Notification Clause with 72-hour notification period.'']\<rparr>
   \<and> contracts (reviewContract \<lparr>contract_id = 2, contract_name = ''b.pdf''\<rparr>
        \<lparr>contracts = [\<lparr>contract_id = 2, contract_name = ''b.pdf''\<rparr>],
         selectedContract = None, reviewResult = None\<rparr>)
     = [\<lparr>contract_id = 2, contract_name = ''b.pdf''\<rparr>]"
proof -
  note fr = reviewContract_frame [of "\<lparr>contract_id = 1, contract_name = ''a.pdf''\<rparr>" App_init
      "[\<lparr>contract_id = 2, contract_name = ''b.pdf''\<rparr>,
        \<lparr>contract_id = 1, contract_name = ''a.pdf''\<rparr>]"]
  note fc = reviewContract_frame [of "\<lparr>contract_id = 2, contract_name = ''b.pdf''\<rparr>"
      "\<lparr>contracts = [\<lparr>contract_id = 2, contract_name = ''b.pdf''\<rparr>],
        selectedContract = None, reviewResult = None\<rparr>"]
  have "contracts (reviewContract \<lparr>contract_id = 2, contract_name = ''b.pdf''\<rparr>
        \<lparr>contracts = [\<lparr>contract_id = 2, contract_name = ''b.pdf''\<rparr>],
         selectedContract = None, reviewResult = None\<rparr>)
     = [\<lparr>contract_id = 2, contract_name = ''b.pdf''\<rparr>]"
    using fc [THEN conjunct1] by simp
  with fr [THEN conjunct2, THEN conjunct2, THEN conjunct2, THEN conjunct1]
  show ?thesis by (rule conjI)
qed

text \<open>
  Claim C7. \<^verbatim>\<open>handleChange\<close> forwards the first selected file only, and what the
  application stores depends on that file's name only: two file-selection events whose first
  files have the same name give the same resulting state (at the same reading of the clock),
  whatever the contents, types and sizes of the files and whatever other files were selected.
\<close>

theorem upload_depends_on_first_name_only:
  "files (target e1) = f1 # rest1 \<Longrightarrow> files (target e2) = f2 # rest2 \<Longrightarrow>
   file_name f1 = file_name f2 \<Longrightarrow>
     snd (handleChange onUpload e1 st) = onUpload f1 st
     \<and> snd (handleChange (handleUpload now) e1 s) = snd (handleChange (handleUpload now) e2 s)
     \<and> step (FileChange e1 now) s = step (FileChange e2 now) s"
  by (simp add: handleChange_def js_index_def handleUpload_def)

theorem upload_depends_on_first_name_only_witness:
  "step (FileChange \<lparr>target = \<lparr>files =
        [\<lparr>file_name = ''x.pdf'', file_type = ''application/pdf'', file_size = 3,
          file_content = [37, 80, 68]\<rparr>,
         \<lparr>file_name = ''z.doc'', file_type = ''application/msword'', file_size = 0,
          file_content = []\<rparr>], input_value = Some ''x.pdf''\<rparr>\<rparr> 5) App_init
   = step (FileChange \<lparr>target = \<lparr>files =
        [\<lparr>file_name = ''x.pdf'', file_type = ''text/plain'', file_size = 1,
          file_content = [65]\<rparr>], input_value = Some ''x.pdf''\<rparr>\<rparr> 5) App_init"
proof -
  let ?f1 = "\<lparr>file_name = ''x.pdf'', file_type = ''application/pdf'', file_size = 3,
          file_content = [37, 80, 68]\<rparr>"
  let ?f3 = "\<lparr>file_name = ''z.doc'', file_type = ''application/msword'', file_size = 0,
          file_content = []\<rparr>"
  let ?f2 = "\<lparr>file_name = ''x.pdf'', file_type = ''text/plain'', file_size = 1,
          file_content = [65]\<rparr>"
  let ?e1 = "\<lparr>target = \<lparr>files = [?f1, ?f3], input_value = Some ''x.pdf''\<rparr>\<rparr>"
  let ?e2 = "\<lparr>target = \<lparr>files = [?f2], input_value = Some ''x.pdf''\<rparr>\<rparr>"
  have a: "files (target ?e1) = ?f1 # [?f3]" by simp
  have b: "files (target ?e2) = ?f2 # []" by simp
  have c: "file_name ?f1 = file_name ?f2" by simp
  from upload_depends_on_first_name_only [OF a b c, of "handleUpload 5" App_init 5 App_init] show ?thesis by (rule conjunct2 [THEN conjunct2])
qed

text \<open>
  Claim C8. \<^verbatim>\<open>ContractList\<close> returns \<^verbatim>\<open>null\<close> for the empty list; otherwise
  it renders one row per contract, in the order of the list, the \<open>i\<close>-th row showing the name
  of the \<open>i\<close>-th contract and one button, whose handler is \<^verbatim>\<open>onReview\<close> of that
  contract. In the application that handler is \<^verbatim>\<open>reviewContract\<close>, so the click selects
  that contract.
\<close>

theorem ContractList_renders_rows:
  "ContractList [] onReview = None
   \<and> (cs \<noteq> [] \<longrightarrow>
        (\<exists>view. ContractList cs onReview = Some view
           \<and> length (rows view) = length cs
           \<and> (\<forall>i < length cs.
                 texts (rows view ! i) = [contract_name (cs ! i), ''Review'']
                 \<and> buttons (rows view ! i) = [onReview (cs ! i)])))
   \<and> (i < length (contracts s) \<longrightarrow>
        review_button i s = Some (reviewContract (contracts s ! i))
        \<and> selectedContract (step (ClickReview i) s) = Some (contracts s ! i))"
proof -
  have "ContractList [] onReview = None"
    by (simp add: ContractList_def)
  moreover have "\<exists>view. ContractList cs onReview = Some view
           \<and> length (rows view) = length cs
           \<and> (\<forall>i < length cs.
                 texts (rows view ! i) = [contract_name (cs ! i), ''Review'']
                 \<and> buttons (rows view ! i) = [onReview (cs ! i)])" if "cs \<noteq> []"
  proof -
    from rows_ContractList [OF that, of onReview] obtain view where
      v: "ContractList cs onReview = Some view"
      "rows view = map (\<lambda>c. Fragment (contract_id c)
         [Elem ''div'' [Text (contract_name c)], Button (onReview c) [Text ''Review'']]) cs"
      by blast
    then show ?thesis by simp
  qed
  moreover have "review_button i s = Some (reviewContract (contracts s ! i))
        \<and> selectedContract (step (ClickReview i) s) = Some (contracts s ! i)"
    if "i < length (contracts s)"
    using that by (simp add: review_button_eq selectedContract_reviewContract)
  ultimately show ?thesis by blast
qed

theorem ContractList_renders_rows_witness:
  "\<exists>view. ContractList [\<lparr>contract_id = 1, contract_name = ''a.pdf''\<rparr>,
                         \<lparr>contract_id = 2, contract_name = ''b.pdf''\<rparr>] reviewContract = Some view
     \<and> length (rows view) = 2
     \<and> texts (rows view ! 1) = [''b.pdf'', ''Review'']
     \<and> buttons (rows view ! 1) = [reviewContract \<lparr>contract_id = 2, contract_name = ''b.pdf''\<rparr>]"
proof -
  let ?cs = "[\<lparr>contract_id = 1, contract_name = ''a.pdf''\<rparr>,
              \<lparr>contract_id = 2, contract_name = ''b.pdf''\<rparr>]"
  have "?cs \<noteq> []" by simp
  with ContractList_renders_rows [of reviewContract ?cs] obtain view where
    v: "ContractList ?cs reviewContract = Some view" "length (rows view) = length ?cs"
    "\<forall>i < length ?cs. texts (rows view ! i) = [contract_name (?cs ! i), ''Review'']
        \<and> buttons (rows view ! i) = [reviewContract (?cs ! i)]"
    by blast
  from v(3) have "texts (rows view ! 1) = [contract_name (?cs ! 1), ''Review'']
        \<and> buttons (rows view ! 1) = [reviewContract (?cs ! 1)]"
    by simp
  with v(1,2) show ?thesis by simp
qed

text \<open>
  Claim C9. The identifier of the placeholder an upload appends is the reading of the clock at
  the upload; it does not depend on the file or on the state. Two uploads at the same reading
  get the same identifier.
\<close>

theorem handleUpload_id_is_clock:
  "contract_id (last (contracts (handleUpload now f s))) = now
   \<and> contract_id (last (contracts (handleUpload now f s)))
       = contract_id (last (contracts (handleUpload now g s')))
   \<and> map contract_id (drop (length (contracts s))
        (contracts (handleUpload now g (handleUpload now f s)))) = [now, now]"
  by (simp add: contracts_handleUpload)

theorem handleUpload_id_is_clock_witness:
  "map contract_id (contracts
      (handleUpload 7 \<lparr>file_name = ''y.txt'', file_type = ''text/plain'', file_size = 1,
          file_content = [65]\<rparr>
        (handleUpload 7 \<lparr>file_name = ''x.pdf'', file_type = ''application/pdf'', file_size = 3,
          file_content = [37, 80, 68]\<rparr> App_init))) = [7, 7]"
  using handleUpload_id_is_clock [of 7 "\<lparr>file_name = ''x.pdf'', file_type = ''application/pdf'', file_size = 3,
          file_content = [37, 80, 68]\<rparr>" App_init
         "\<lparr>file_name = ''y.txt'', file_type = ''text/plain'', file_size = 1,
          file_content = [65]\<rparr>"]
  by (simp add: App_init_def)

text \<open>
  Claim C10. Selection and review result are both \<^verbatim>\<open>null\<close> at page load; an upload
  changes neither and a review sets both. So in every state reached from page load the selection
  is set exactly when the review result is, and the review panel is rendered exactly when
  \<^verbatim>\<open>reviewContract\<close> has been invoked at least once in the session.
\<close>

theorem selection_iff_review_result:
  "selectedContract App_init = None \<and> reviewResult App_init = None
   \<and> selectedContract (handleUpload now f s) = selectedContract s
   \<and> reviewResult (handleUpload now f s) = reviewResult s
   \<and> selectedContract (reviewContract c s) \<noteq> None \<and> reviewResult (reviewContract c s) \<noteq> None
   \<and> ((selectedContract (run as App_init) \<noteq> None) = (reviewResult (run as App_init) \<noteq> None))
   \<and> ((App_ReviewPanel (run as App_init) \<noteq> None) = (0 < reviews as App_init))"
proof -
  have n: "selectedContract App_init = None" "reviewResult App_init = None"
    by (simp_all add: App_init_def)
  then have "(selectedContract App_init = None) = (reviewResult App_init = None)"
    by simp
  note ab = selected_iff_reviewed [OF this, of as]
  have a: "(selectedContract (run as App_init) = None) = (reviewResult (run as App_init) = None)"
    by (rule ab [THEN conjunct1])
  have b: "(selectedContract (run as App_init) \<noteq> None) =
            (selectedContract App_init \<noteq> None \<or> 0 < reviews as App_init)"
    by (rule ab [THEN conjunct2])
  from a have c: "(selectedContract (run as App_init) \<noteq> None) = (reviewResult (run as App_init) \<noteq> None)"
    by simp
  from a b n(1) have d: "(App_ReviewPanel (run as App_init) \<noteq> None) = (0 < reviews as App_init)"
    unfolding App_ReviewPanel_shown by auto
  have e: "selectedContract (handleUpload now f s) = selectedContract s"
    "reviewResult (handleUpload now f s) = reviewResult s"
    by (simp_all add: handleUpload_def)
  have g: "selectedContract (reviewContract c s) \<noteq> None" "reviewResult (reviewContract c s) \<noteq> None"
    by (simp_all add: reviewContract_def)
  show ?thesis
    by (intro conjI) (fact n c d e g)+
qed

theorem selection_iff_review_result_witness:
  "App_ReviewPanel (run
      [FileChange \<lparr>target = \<lparr>files = [\<lparr>file_name = ''x.pdf'', file_type = ''application/pdf'',
           file_size = 3, file_content = [37, 80, 68]\<rparr>], input_value = Some ''x.pdf''\<rparr>\<rparr> 5,
       ClickReview 0] App_init) \<noteq> None
   \<and> App_ReviewPanel (run
      [FileChange \<lparr>target = \<lparr>files = [\<lparr>file_name = ''x.pdf'', file_type = ''application/pdf'',
           file_size = 3, file_content = [37, 80, 68]\<rparr>], input_value = Some ''x.pdf''\<rparr>\<rparr> 5,
       ClickReview 1] App_init) = None"
proof -
  let ?e = "\<lparr>target = \<lparr>files = [\<lparr>file_name = ''x.pdf'', file_type = ''application/pdf'',
             file_size = 3, file_content = [37, 80, 68]\<rparr>], input_value = Some ''x.pdf''\<rparr>\<rparr>"
  have a: "0 < reviews [FileChange ?e 5, ClickReview 0] App_init"
    by (simp add: handleChange_def js_index_def handleUpload_def App_init_def review_button_def
        App_ContractList_def ContractList_def)
  have b: "\<not> 0 < reviews [FileChange ?e 5, ClickReview 1] App_init"
    by (simp add: handleChange_def js_index_def handleUpload_def App_init_def review_button_def
        App_ContractList_def ContractList_def)
  note last = conjunct2 [THEN conjunct2, THEN conjunct2, THEN conjunct2, THEN conjunct2,
      THEN conjunct2, THEN conjunct2]
  have "App_ReviewPanel (run [FileChange ?e 5, ClickReview 0] App_init) \<noteq> None"
    using selection_iff_review_result [of 0 _ App_init _ "[FileChange ?e 5, ClickReview 0]", THEN last] a
    by (rule iffD2)
  moreover have "\<not> App_ReviewPanel (run [FileChange ?e 5, ClickReview 1] App_init) \<noteq> None"
    using selection_iff_review_result [of 0 _ App_init _ "[FileChange ?e 5, ClickReview 1]", THEN last] b
    by (rule Not_eq_iff [THEN iffD2, THEN iffD2])
  ultimately show ?thesis by simp
qed

end
